theory Spec2Isabelle
  imports Main "HOL-Library.Sublist"
begin

section \<open>Go values used by the cleaner\<close>

subsection \<open>Errors\<close>

text \<open>
  A Go \<^verbatim>\<open>error\<close> is either a plain error carrying its message (\<^verbatim>\<open>errors.New\<close>) or
  an error wrapped by \<^verbatim>\<open>microerror.Mask\<close>. Masking keeps the message of the wrapped error.
  A nil error is \<open>None\<close> of \<open>error option\<close>.
\<close>

datatype error = New string | Mask error

fun Error :: "error \<Rightarrow> string" where
  "Error (New m) = m"
| "Error (Mask e) = Error e"

subsection \<open>Package strings\<close>

definition HasPrefix :: "string \<Rightarrow> string \<Rightarrow> bool" where
  "HasPrefix s p = prefix p s"

fun Contains :: "string \<Rightarrow> string \<Rightarrow> bool" where
  "Contains [] substr = (substr = [])"
| "Contains (c # s) substr = (prefix substr (c # s) \<or> Contains s substr)"

subsection \<open>Package regexp\<close>

text \<open>
  The one pattern of the repository uses literals, \<^verbatim>\<open>.\<close>, \<^verbatim>\<open>*\<close>, grouping with
  alternation and the two anchors. Without flags, Go's \<^verbatim>\<open>.\<close> matches every character but
  the newline, \<^verbatim>\<open>^\<close> matches at the start of the text only and \<^verbatim>\<open>$\<close> at its end only.
  A pattern that starts with \<^verbatim>\<open>^\<close> and ends with \<^verbatim>\<open>$\<close> therefore matches a text when the
  whole text matches what stands between the anchors; \<open>Match\<close> decides that for the
  expression between the anchors, by derivatives.
\<close>

datatype rexp =
    Null
  | Eps
  | Lit char
  | AnyNotNL
  | Cat rexp rexp
  | Alt rexp rexp
  | Star rexp

definition newline :: char where
  "newline = CHR 0x0A"

fun literal :: "string \<Rightarrow> rexp" where
  "literal [] = Eps"
| "literal (c # cs) = Cat (Lit c) (literal cs)"

fun nullable :: "rexp \<Rightarrow> bool" where
  "nullable Null = False"
| "nullable Eps = True"
| "nullable (Lit c) = False"
| "nullable AnyNotNL = False"
| "nullable (Cat r s) = (nullable r \<and> nullable s)"
| "nullable (Alt r s) = (nullable r \<or> nullable s)"
| "nullable (Star r) = True"

fun deriv :: "char \<Rightarrow> rexp \<Rightarrow> rexp" where
  "deriv a Null = Null"
| "deriv a Eps = Null"
| "deriv a (Lit c) = (if a = c then Eps else Null)"
| "deriv a AnyNotNL = (if a = newline then Null else Eps)"
| "deriv a (Cat r s) =
     (if nullable r then Alt (Cat (deriv a r) s) (deriv a s) else Cat (deriv a r) s)"
| "deriv a (Alt r s) = Alt (deriv a r) (deriv a s)"
| "deriv a (Star r) = Cat (deriv a r) (Star r)"

fun Match :: "rexp \<Rightarrow> string \<Rightarrow> bool" where
  "Match r [] = nullable r"
| "Match r (a # w) = Match (deriv a r) w"

text \<open>The meaning of an expression: the set of texts it matches in full.\<close>

inductive_set star :: "string set \<Rightarrow> string set" for A :: "string set" where
  star_empty: "[] \<in> star A"
| star_step: "u \<in> A \<Longrightarrow> v \<in> star A \<Longrightarrow> u @ v \<in> star A"

fun lang :: "rexp \<Rightarrow> string set" where
  "lang Null = {}"
| "lang Eps = {[]}"
| "lang (Lit c) = {[c]}"
| "lang AnyNotNL = {[c] | c. c \<noteq> newline}"
| "lang (Cat r s) = {u @ v | u v. u \<in> lang r \<and> v \<in> lang s}"
| "lang (Alt r s) = lang r \<union> lang s"
| "lang (Star r) = star (lang r)"

section \<open>The DNS record name filter (delegatedns.go)\<close>

definition dnsFailureError :: string where
  "dnsFailureError = ''SERVFAIL''"

definition dnsServerAddress :: string where
  "dnsServerAddress = ''8.8.8.8''"

definition e2eterraformPrefix :: string where
  "e2eterraformPrefix = ''e2eterraform''"

definition resourceGroup :: string where
  "resourceGroup = ''root_dns_zone_rg''"

definition zoneName :: string where
  "zoneName = ''azure.gigantic.io''"

text \<open>
  The expression between the anchors of
  \<^verbatim>\<open>^e2e.*\.(westeurope|germanywestcentral)$\<close>.
\<close>

definition ciRecordRe :: rexp where
  "ciRecordRe =
     Cat (literal ''e2e'')
       (Cat (Star AnyNotNL)
         (Cat (Lit (CHR ''.''))
           (Alt (literal ''westeurope'') (literal ''germanywestcentral''))))"

definition isCIRecord :: "string \<Rightarrow> bool" where
  "isCIRecord s =
     (if HasPrefix s e2eterraformPrefix then True
      else Match ciRecordRe s)"

section \<open>Collaborators and effects\<close>

text \<open>
  Instants are nanoseconds on the UTC time line, durations are nanoseconds. The resource
  names of the SDK are pointers to strings which the listings always fill; the model reads
  them as strings.
\<close>

type_synonym time = int

definition Minute :: int where
  "Minute = 60 * 1000000000"

record Group =
  Group_Name :: string

record EventData =
  EventTimestamp :: time
  ResourceGroupName :: string

record RecordSet =
  RecordSet_Name :: string
  Etag :: string

record http_Response =
  StatusCode :: int

record autorest_Response =
  Response :: "http_Response option"

definition StatusNotFound :: int where
  "StatusNotFound = 404"

text \<open>
  The clients held by the \<^verbatim>\<open>Cleaner\<close> struct, each as the answer it gives to a call.
  A call whose results the code reads only when the error is nil answers with a sum;
  \<^verbatim>\<open>DeleteResponder\<close>, whose result is inspected before its error, answers with a pair.
  A listing answers with the items its iterator yields, in order.
\<close>

record Cleaner =
  groupsClient_ListComplete :: "error + Group list"
  groupsClient_Delete :: "string \<Rightarrow> error + http_Response option"
  groupsClient_DeleteResponder :: "http_Response option \<Rightarrow> autorest_Response \<times> error option"
  activityLogsClient_ListComplete :: "string \<Rightarrow> error + EventData list"
  dnsRecordSetsClient_ListAllByDNSZoneComplete :: "string \<Rightarrow> string \<Rightarrow> error + RecordSet list"
  dnsRecordSetsClient_Delete ::
    "string \<Rightarrow> string \<Rightarrow> string \<Rightarrow> string \<Rightarrow> string \<Rightarrow> error option"

text \<open>
  What the code takes from outside the \<^verbatim>\<open>Cleaner\<close>: the clock, the formatting of the
  standard library, and the resolver of package \<^verbatim>\<open>dns_resolver\<close>, which answers a lookup
  of a host (for given servers and retry count) with addresses and an error.
\<close>

record Runtime =
  Now :: time
  Format_RFC3339Nano :: "time \<Rightarrow> string"
  Sprintf_GoSyntax :: "error \<Rightarrow> string"
  resolver_LookupHost :: "string list \<Rightarrow> nat \<Rightarrow> string \<Rightarrow> string list \<times> error option"

text \<open>The calls and log lines a pass leaves behind, in the order the code makes them.\<close>

datatype effect =
    Log "string list"
  | ActivityLogs_ListComplete string
  | Groups_Delete string
  | Resolver_LookupHost "string list" nat string
  | RecordSets_Delete string string string string string

datatype control = Next | Return error

text \<open>\<^verbatim>\<open>%q\<close> of a name: the name between double quotes (names hold nothing to escape).\<close>

definition Sprintf_q :: "string \<Rightarrow> string" where
  "Sprintf_q s = [CHR 0x22] @ s @ [CHR 0x22]"

section \<open>The resource group reaper (resourcegroup.go)\<close>

definition gracePeriod :: int where
  "gracePeriod = 90 * Minute"

definition groupHasTestNamePrefix :: "Group \<Rightarrow> bool" where
  "groupHasTestNamePrefix grp =
     (let prefixes = [''ci-'', ''e2e'']
      in list_ex (\<lambda>prefix. HasPrefix (Group_Name grp) prefix) prefixes)"

definition activityFilter :: "Runtime \<Rightarrow> time \<Rightarrow> string \<Rightarrow> string" where
  "activityFilter rt since name =
     ''eventTimestamp ge '' @ [CHR 0x27] @ Format_RFC3339Nano rt since @ [CHR 0x27]
       @ '' and resourceGroupName eq '' @ [CHR 0x27] @ name @ [CHR 0x27]"

definition groupHasActivity ::
  "Runtime \<Rightarrow> Cleaner \<Rightarrow> Group \<Rightarrow> time \<Rightarrow> (error + bool) \<times> effect list" where
  "groupHasActivity rt c grp since =
     (let fltr = activityFilter rt since (Group_Name grp)
      in case activityLogsClient_ListComplete c fltr of
           Inl err \<Rightarrow> (Inl (Mask err), [ActivityLogs_ListComplete fltr])
         | Inr eventIter \<Rightarrow> (Inr (eventIter \<noteq> []), [ActivityLogs_ListComplete fltr]))"

definition groupShouldBeDeleted ::
  "Runtime \<Rightarrow> Cleaner \<Rightarrow> Group \<Rightarrow> time \<Rightarrow> (error + bool) \<times> effect list" where
  "groupShouldBeDeleted rt c grp since =
     (if \<not> groupHasTestNamePrefix grp then (Inr False, [])
      else case groupHasActivity rt c grp since of
             (Inl err, fx) \<Rightarrow> (Inl (Mask err), fx)
           | (Inr hasActivity, fx) \<Rightarrow> (Inr (\<not> hasActivity), fx))"

definition logChecking :: "string \<Rightarrow> effect" where
  "logChecking name =
     Log [''level'', ''debug'', ''message'', ''checking resource group '' @ Sprintf_q name]"

definition logSkipping :: "string \<Rightarrow> error \<Rightarrow> effect" where
  "logSkipping name err =
     Log [''level'', ''debug'', ''message'',
          ''skipping resource group '' @ Sprintf_q name @ '' due to error'',
          ''error'', Error err]"

definition logDeletionFailed :: "string \<Rightarrow> error \<Rightarrow> effect" where
  "logDeletionFailed name err =
     Log [''level'', ''error'', ''message'',
          ''resource group '' @ Sprintf_q name @ '' deletion failed'',
          ''error'', Error err]"

definition logDeleted :: "string \<Rightarrow> effect" where
  "logDeleted name =
     Log [''level'', ''debug'', ''message'', ''resource group '' @ Sprintf_q name @ '' deleted'']"

text \<open>One turn of the loop of \<^verbatim>\<open>cleanResourceGroup\<close>: go on to the next group, or return.\<close>

definition cleanResourceGroup_body ::
  "Runtime \<Rightarrow> Cleaner \<Rightarrow> time \<Rightarrow> Group \<Rightarrow> control \<times> effect list" where
  "cleanResourceGroup_body rt c deadLine grp =
     (let name = Group_Name grp
      in case groupShouldBeDeleted rt c grp deadLine of
           (Inl err, fx) \<Rightarrow> (Next, logChecking name # fx @ [logSkipping name err])
         | (Inr shouldBeDeleted, fx) \<Rightarrow>
             if shouldBeDeleted then
               (case groupsClient_Delete c name of
                  Inl err \<Rightarrow>
                    (Return (Mask err),
                     logChecking name # fx @ [Groups_Delete name, logDeletionFailed name err])
                | Inr respFuture \<Rightarrow>
                    (case groupsClient_DeleteResponder c respFuture of
                       (res, err) \<Rightarrow>
                         if (case Response res of
                               None \<Rightarrow> False
                             | Some resp \<Rightarrow> StatusCode resp = StatusNotFound)
                         then (Next, logChecking name # fx @ [Groups_Delete name, logDeleted name])
                         else (case err of
                                 Some e \<Rightarrow>
                                   (Return (Mask e),
                                    logChecking name # fx
                                      @ [Groups_Delete name, logDeletionFailed name e])
                               | None \<Rightarrow>
                                   (Next,
                                    logChecking name # fx
                                      @ [Groups_Delete name, logDeleted name]))))
             else (Next, logChecking name # fx))"

fun cleanResourceGroup_loop ::
  "Runtime \<Rightarrow> Cleaner \<Rightarrow> time \<Rightarrow> Group list \<Rightarrow> error option \<times> effect list" where
  "cleanResourceGroup_loop rt c deadLine [] = (None, [])"
| "cleanResourceGroup_loop rt c deadLine (grp # groupIter) =
     (case cleanResourceGroup_body rt c deadLine grp of
        (Return err, fx) \<Rightarrow> (Some err, fx)
      | (Next, fx) \<Rightarrow>
          (case cleanResourceGroup_loop rt c deadLine groupIter of
             (r, fx') \<Rightarrow> (r, fx @ fx')))"

definition cleanResourceGroup :: "Runtime \<Rightarrow> Cleaner \<Rightarrow> error option \<times> effect list" where
  "cleanResourceGroup rt c =
     (case groupsClient_ListComplete c of
        Inl err \<Rightarrow> (Some (Mask err), [])
      | Inr groupIter \<Rightarrow> cleanResourceGroup_loop rt c (Now rt - gracePeriod) groupIter)"

section \<open>The DNS record reaper (delegatedns.go)\<close>

definition resolvesApiName :: "Runtime \<Rightarrow> string \<Rightarrow> (error + bool) \<times> effect list" where
  "resolvesApiName rt name =
     (let full = ''api.'' @ name @ ''.'' @ zoneName
      in case resolver_LookupHost rt [dnsServerAddress] 5 full of
           (addresses, err) \<Rightarrow>
             (case err of
                Some e \<Rightarrow>
                  if \<not> Contains (Error e) dnsFailureError
                  then (Inl e, [Resolver_LookupHost [dnsServerAddress] 5 full])
                  else (Inr (length addresses > 0), [Resolver_LookupHost [dnsServerAddress] 5 full])
              | None \<Rightarrow>
                  (Inr (length addresses > 0), [Resolver_LookupHost [dnsServerAddress] 5 full])))"

definition logResolveWarning :: "string \<Rightarrow> error \<Rightarrow> effect" where
  "logResolveWarning name err =
     Log [''level'', ''warning'', ''message'',
          ''Unexpected error when trying to resolve '' @ name @ '': '' @ Error err]"

definition dnsRecordShouldBeDeleted ::
  "Runtime \<Rightarrow> Cleaner \<Rightarrow> RecordSet \<Rightarrow> time \<Rightarrow> (error + bool) \<times> effect list" where
  "dnsRecordShouldBeDeleted rt c dnsRecord since =
     (if \<not> isCIRecord (RecordSet_Name dnsRecord) then (Inr False, [])
      else case resolvesApiName rt (RecordSet_Name dnsRecord) of
             (Inl err, fx) \<Rightarrow>
               (Inr False, fx @ [logResolveWarning (RecordSet_Name dnsRecord) err])
           | (Inr resolves, fx) \<Rightarrow> (Inr (\<not> resolves), fx))"

definition deleteRecord :: "Cleaner \<Rightarrow> RecordSet \<Rightarrow> error option \<times> effect list" where
  "deleteRecord c dnsRecord =
     (dnsRecordSetsClient_Delete c resourceGroup zoneName (RecordSet_Name dnsRecord) ''NS''
        (Etag dnsRecord),
      [RecordSets_Delete resourceGroup zoneName (RecordSet_Name dnsRecord) ''NS''
         (Etag dnsRecord)])"

definition logCheckFailed :: "Runtime \<Rightarrow> string \<Rightarrow> error \<Rightarrow> effect" where
  "logCheckFailed rt name err =
     Log [''level'', ''error'', ''message'', ''failed to check DNS record '' @ Sprintf_q name,
          ''stack'', Sprintf_GoSyntax rt (Mask err)]"

definition logDeleteFailed :: "Runtime \<Rightarrow> string \<Rightarrow> error \<Rightarrow> effect" where
  "logDeleteFailed rt name err =
     Log [''level'', ''error'', ''message'', ''failed to delete DNS record '' @ Sprintf_q name,
          ''stack'', Sprintf_GoSyntax rt (Mask err)]"

definition logSkip :: effect where
  "logSkip = Log [''level'', ''error'', ''message'', ''skipping'']"

definition logHasToBeDeleted :: "string \<Rightarrow> effect" where
  "logHasToBeDeleted name =
     Log [''level'', ''info'', ''message'', ''DNS record '' @ name @ '' has to be deleted'']"

definition logWasDeleted :: "string \<Rightarrow> effect" where
  "logWasDeleted name =
     Log [''level'', ''debug'', ''info'', ''DNS record '' @ name @ '' was deleted'']"

definition logHasToBeKept :: "string \<Rightarrow> effect" where
  "logHasToBeKept name =
     Log [''level'', ''debug'', ''message'', ''DNS record '' @ name @ '' has to be kept'']"

text \<open>
  One turn of the loop of \<^verbatim>\<open>cleanDelegateDNSRecords\<close>: every path goes on to the next
  record; the turn hands on the value of \<^verbatim>\<open>lastError\<close>.
\<close>

definition cleanDelegateDNSRecords_body ::
  "Runtime \<Rightarrow> Cleaner \<Rightarrow> time \<Rightarrow> error option \<Rightarrow> RecordSet
     \<Rightarrow> error option \<times> effect list" where
  "cleanDelegateDNSRecords_body rt c deadLine lastError record =
     (let name = RecordSet_Name record
      in case dnsRecordShouldBeDeleted rt c record deadLine of
           (Inl err, fx) \<Rightarrow> (Some err, fx @ [logCheckFailed rt name err, logSkip])
         | (Inr del, fx) \<Rightarrow>
             if del then
               (case deleteRecord c record of
                  (Some err, fx') \<Rightarrow>
                    (Some err,
                     fx @ [logHasToBeDeleted name] @ fx' @ [logDeleteFailed rt name err, logSkip])
                | (None, fx') \<Rightarrow>
                    (lastError, fx @ [logHasToBeDeleted name] @ fx' @ [logWasDeleted name]))
             else (lastError, fx @ [logHasToBeKept name]))"

fun cleanDelegateDNSRecords_loop ::
  "Runtime \<Rightarrow> Cleaner \<Rightarrow> time \<Rightarrow> error option \<Rightarrow> RecordSet list
     \<Rightarrow> error option \<times> effect list" where
  "cleanDelegateDNSRecords_loop rt c deadLine lastError [] = (lastError, [])"
| "cleanDelegateDNSRecords_loop rt c deadLine lastError (record # recordsIter) =
     (case cleanDelegateDNSRecords_body rt c deadLine lastError record of
        (lastError', fx) \<Rightarrow>
          (case cleanDelegateDNSRecords_loop rt c deadLine lastError' recordsIter of
             (r, fx') \<Rightarrow> (r, fx @ fx')))"

definition cleanDelegateDNSRecords :: "Runtime \<Rightarrow> Cleaner \<Rightarrow> error option \<times> effect list" where
  "cleanDelegateDNSRecords rt c =
     (case dnsRecordSetsClient_ListAllByDNSZoneComplete c resourceGroup zoneName of
        Inl err \<Rightarrow> (Some (Mask err), [])
      | Inr recordsIter \<Rightarrow>
          (case cleanDelegateDNSRecords_loop rt c (Now rt - gracePeriod) None recordsIter of
             (lastError, fx) \<Rightarrow>
               (case lastError of
                  Some e \<Rightarrow> (Some (Mask e), fx)
                | None \<Rightarrow> (None, fx))))"

section \<open>A sample account\<close>

text \<open>
  A clock, a resolver and the answers of the clients for a small account: six resource
  groups and five record sets, with one failing activity query, one failing delete of a
  group, one failing delete of a record, a lookup that times out and one that ends in
  \<^verbatim>\<open>SERVFAIL\<close>. The properties below are run on it.
\<close>

definition exampleRuntime :: Runtime where
  "exampleRuntime =
     \<lparr>Now = 1528002000000000000,
      Format_RFC3339Nano = (\<lambda>t. ''2018-06-03T03:30:00Z''),
      Sprintf_GoSyntax = Error,
      resolver_LookupHost = (\<lambda>servers retries host.
        if host = ''api.e2eterraform-a.azure.gigantic.io''
          then ([], Some (New ''read udp 8.8.8.8:53: i/o timeout''))
        else if host = ''api.e2eabcd.westeurope.azure.gigantic.io''
          then ([], Some (New ''SERVFAIL''))
        else if host = ''api.e2eterraform-xyz.azure.gigantic.io''
          then ([''10.0.0.1''], None)
        else ([], None))\<rparr>"

definition exampleFilter :: "string \<Rightarrow> string" where
  "exampleFilter name =
     activityFilter exampleRuntime (Now exampleRuntime - gracePeriod) name"

definition exampleCleaner :: Cleaner where
  "exampleCleaner =
     \<lparr>groupsClient_ListComplete =
        Inr [\<lparr>Group_Name = ''ci-build-42''\<rparr>, \<lparr>Group_Name = ''prod-shared''\<rparr>,
             \<lparr>Group_Name = ''e2e-busy''\<rparr>, \<lparr>Group_Name = ''ci-err''\<rparr>,
             \<lparr>Group_Name = ''ci-locked''\<rparr>, \<lparr>Group_Name = ''ci-late''\<rparr>],
      groupsClient_Delete = (\<lambda>name.
        if name = ''ci-locked'' then Inl (New ''conflict'')
        else if name = ''ci-build-42'' then Inr (Some \<lparr>StatusCode = 404\<rparr>)
        else if name = ''ci-late'' then Inr (Some \<lparr>StatusCode = 409\<rparr>)
        else Inr (Some \<lparr>StatusCode = 202\<rparr>)),
      groupsClient_DeleteResponder = (\<lambda>resp.
        (\<lparr>Response = resp\<rparr>,
         case resp of
           None \<Rightarrow> Some (New ''no response'')
         | Some r \<Rightarrow>
             if StatusCode r = 200 \<or> StatusCode r = 202 then None
             else Some (New ''unexpected status''))),
      activityLogsClient_ListComplete = (\<lambda>fltr.
        if fltr = exampleFilter ''e2e-busy''
          then Inr [\<lparr>EventTimestamp = 1528001000000000000, ResourceGroupName = ''e2e-busy''\<rparr>]
        else if fltr = exampleFilter ''ci-err'' then Inl (New ''throttled'')
        else Inr []),
      dnsRecordSetsClient_ListAllByDNSZoneComplete = (\<lambda>rg zone.
        Inr [\<lparr>RecordSet_Name = ''e2eterraform-a'', Etag = ''1''\<rparr>,
             \<lparr>RecordSet_Name = ''e2eabcd.westeurope'', Etag = ''2''\<rparr>,
             \<lparr>RecordSet_Name = ''e2eterraform-xyz'', Etag = ''3''\<rparr>,
             \<lparr>RecordSet_Name = ''www'', Etag = ''4''\<rparr>,
             \<lparr>RecordSet_Name = ''e2eterraform-gone'', Etag = ''5''\<rparr>]),
      dnsRecordSetsClient_Delete = (\<lambda>rg zone name recordType etag.
        if name = ''e2eabcd.westeurope'' then Some (New ''precondition failed'') else None)\<rparr>"

definition timeoutOnlyCleaner :: Cleaner where
  "timeoutOnlyCleaner =
     exampleCleaner
       \<lparr>dnsRecordSetsClient_ListAllByDNSZoneComplete :=
          (\<lambda>rg zone. Inr [\<lparr>RecordSet_Name = ''e2eterraform-a'', Etag = ''1''\<rparr>])\<rparr>"


section \<open>Notions used to state the properties\<close>

text \<open>
  The errors of the deletes that fail in a pass of the DNS record reaper over the given
  records, in the order of the records: a record contributes the error of its delete when
  the reaper decides to delete it and the delete answers with an error.
\<close>

fun failedDeletes :: "Runtime \<Rightarrow> Cleaner \<Rightarrow> time \<Rightarrow> RecordSet list \<Rightarrow> error list" where
  "failedDeletes rt c deadLine [] = []"
| "failedDeletes rt c deadLine (dnsRecord # rest) =
     (if fst (dnsRecordShouldBeDeleted rt c dnsRecord deadLine) = Inr True
      then (case fst (deleteRecord c dnsRecord) of Some err \<Rightarrow> [err] | None \<Rightarrow> [])
      else [])
     @ failedDeletes rt c deadLine rest"


section \<open>Correctness of the matcher\<close>

lemma nullable_lang: "nullable r \<longleftrightarrow> [] \<in> lang r"
  by (induction r) (auto intro: star.intros)

lemma star_cons_split:
  assumes "w \<in> star A" and "w = a # x"
  shows "\<exists>u v. x = u @ v \<and> a # u \<in> A \<and> v \<in> star A"
  using assms
proof (induction arbitrary: x rule: star.induct)
  case star_empty
  then show ?case by simp
next
  case (star_step u v)
  show ?case
  proof (cases u)
    case Nil
    with star_step show ?thesis by simp
  next
    case (Cons b u')
    with star_step.prems have "b = a" and "x = u' @ v" by simp_all
    with Cons star_step.hyps show ?thesis by blast
  qed
qed

lemma star_cons_iff:
  "a # x \<in> star A \<longleftrightarrow> (\<exists>u v. x = u @ v \<and> a # u \<in> A \<and> v \<in> star A)"
proof
  assume "a # x \<in> star A"
  then show "\<exists>u v. x = u @ v \<and> a # u \<in> A \<and> v \<in> star A"
    using star_cons_split by blast
next
  assume "\<exists>u v. x = u @ v \<and> a # u \<in> A \<and> v \<in> star A"
  then obtain u v where "x = u @ v" "a # u \<in> A" "v \<in> star A" by blast
  then show "a # x \<in> star A"
    using star_step [of "a # u" A v] by simp
qed

lemma lang_deriv: "w \<in> lang (deriv a r) \<longleftrightarrow> a # w \<in> lang r"
proof (induction r arbitrary: w)
  case (Cat r s)
  show ?case
  proof (cases "nullable r")
    case True
    then have eps: "[] \<in> lang r" by (simp add: nullable_lang)
    show ?thesis
    proof
      assume "w \<in> lang (deriv a (Cat r s))"
      with True Cat show "a # w \<in> lang (Cat r s)"
        by (auto simp: Cons_eq_append_conv) (metis append_Nil eps)
    next
      assume "a # w \<in> lang (Cat r s)"
      with True Cat show "w \<in> lang (deriv a (Cat r s))"
        by (auto simp: Cons_eq_append_conv)
    qed
  next
    case False
    then have "[] \<notin> lang r" by (simp add: nullable_lang)
    with False Cat show ?thesis
      by (auto simp: Cons_eq_append_conv)
  qed
next
  case (Star r)
  then show ?case by (auto simp: star_cons_iff)
qed auto

lemma Match_lang: "Match r w \<longleftrightarrow> w \<in> lang r"
  by (induction w arbitrary: r) (simp_all add: nullable_lang lang_deriv)

section \<open>The resource group reaper: what one turn and one pass do\<close>

lemmas log_defs = logChecking_def logSkipping_def logDeletionFailed_def logDeleted_def
  logResolveWarning_def logCheckFailed_def logDeleteFailed_def logSkip_def
  logHasToBeDeleted_def logWasDeleted_def logHasToBeKept_def

lemma groupShouldBeDeleted_not_test:
  "\<not> groupHasTestNamePrefix grp \<Longrightarrow> groupShouldBeDeleted rt c grp since = (Inr False, [])"
  by (simp add: groupShouldBeDeleted_def)

lemma groupShouldBeDeleted_query_failed:
  "groupHasTestNamePrefix grp \<Longrightarrow>
   activityLogsClient_ListComplete c (activityFilter rt since (Group_Name grp)) = Inl err \<Longrightarrow>
   groupShouldBeDeleted rt c grp since =
     (Inl (Mask (Mask err)),
      [ActivityLogs_ListComplete (activityFilter rt since (Group_Name grp))])"
  by (simp add: groupShouldBeDeleted_def groupHasActivity_def)

lemma groupShouldBeDeleted_query_ok:
  "groupHasTestNamePrefix grp \<Longrightarrow>
   activityLogsClient_ListComplete c (activityFilter rt since (Group_Name grp)) = Inr evs \<Longrightarrow>
   groupShouldBeDeleted rt c grp since =
     (Inr (evs = []),
      [ActivityLogs_ListComplete (activityFilter rt since (Group_Name grp))])"
  by (simp add: groupShouldBeDeleted_def groupHasActivity_def)

lemma body_delete_count:
  "count_list (snd (cleanResourceGroup_body rt c d grp)) (Groups_Delete n) =
     (if n = Group_Name grp \<and> groupHasTestNamePrefix grp \<and>
         activityLogsClient_ListComplete c (activityFilter rt d (Group_Name grp)) = Inr []
      then 1 else 0)"
proof (cases "groupHasTestNamePrefix grp")
  case False
  then show ?thesis
    by (simp add: Let_def cleanResourceGroup_body_def groupShouldBeDeleted_not_test log_defs)
next
  case True
  show ?thesis
  proof (cases "activityLogsClient_ListComplete c (activityFilter rt d (Group_Name grp))")
    case (Inl err)
    with True show ?thesis
      by (simp add: Let_def cleanResourceGroup_body_def groupShouldBeDeleted_query_failed log_defs)
  next
    case (Inr evs)
    with True show ?thesis
      by (auto simp add: Let_def cleanResourceGroup_body_def groupShouldBeDeleted_query_ok log_defs
          split: sum.splits option.splits prod.splits)
  qed
qed

lemma body_query_mem:
  "ActivityLogs_ListComplete f \<in> set (snd (cleanResourceGroup_body rt c d grp)) \<longleftrightarrow>
     groupHasTestNamePrefix grp \<and> f = activityFilter rt d (Group_Name grp)"
proof (cases "groupHasTestNamePrefix grp")
  case False
  then show ?thesis
    by (simp add: Let_def cleanResourceGroup_body_def groupShouldBeDeleted_not_test log_defs)
next
  case True
  show ?thesis
  proof (cases "activityLogsClient_ListComplete c (activityFilter rt d (Group_Name grp))")
    case (Inl err)
    with True show ?thesis
      by (auto simp add: Let_def cleanResourceGroup_body_def groupShouldBeDeleted_query_failed log_defs)
  next
    case (Inr evs)
    with True show ?thesis
      by (auto simp add: Let_def cleanResourceGroup_body_def groupShouldBeDeleted_query_ok log_defs
          split: sum.splits option.splits prod.splits)
  qed
qed

lemma activityFilter_inj: "activityFilter rt d n = activityFilter rt d m \<longleftrightarrow> n = m"
  by (simp add: activityFilter_def)

lemma loop_Cons_Next:
  "cleanResourceGroup_body rt c d grp = (Next, fx) \<Longrightarrow>
   cleanResourceGroup_loop rt c d (grp # rest) =
     (fst (cleanResourceGroup_loop rt c d rest), fx @ snd (cleanResourceGroup_loop rt c d rest))"
  by (simp split: prod.splits)

lemma loop_Cons_Return:
  "cleanResourceGroup_body rt c d grp = (Return err, fx) \<Longrightarrow>
   cleanResourceGroup_loop rt c d (grp # rest) = (Some err, fx)"
  by simp

lemma loop_Cons_effects:
  "snd (cleanResourceGroup_loop rt c d (grp # rest)) =
     snd (cleanResourceGroup_body rt c d grp) @
     (case fst (cleanResourceGroup_body rt c d grp) of
        Next \<Rightarrow> snd (cleanResourceGroup_loop rt c d rest)
      | Return err \<Rightarrow> [])"
  by (simp split: prod.splits control.splits)

lemma loop_delete_source:
  "0 < count_list (snd (cleanResourceGroup_loop rt c d groupIter)) (Groups_Delete n) \<Longrightarrow>
   \<exists>grp \<in> set groupIter. n = Group_Name grp \<and> groupHasTestNamePrefix grp \<and>
      activityLogsClient_ListComplete c (activityFilter rt d n) = Inr []"
proof (induction groupIter)
  case Nil
  then show ?case by simp
next
  case (Cons grp rest)
  show ?case
  proof (cases "0 < count_list (snd (cleanResourceGroup_body rt c d grp)) (Groups_Delete n)")
    case True
    then show ?thesis
      by (simp add: body_delete_count split: if_splits)
  next
    case False
    with Cons.prems have "0 < count_list (snd (cleanResourceGroup_loop rt c d rest)) (Groups_Delete n)"
      by (simp add: loop_Cons_effects del: cleanResourceGroup_loop.simps split: control.splits)
    with Cons.IH show ?thesis by auto
  qed
qed


lemma groupHasTestNamePrefix_iff:
  "groupHasTestNamePrefix grp \<longleftrightarrow>
     prefix ''ci-'' (Group_Name grp) \<or> prefix ''e2e'' (Group_Name grp)"
  by (simp add: groupHasTestNamePrefix_def HasPrefix_def)

lemma loop_query_source:
  "ActivityLogs_ListComplete f \<in> set (snd (cleanResourceGroup_loop rt c d groupIter)) \<Longrightarrow>
   \<exists>grp \<in> set groupIter. groupHasTestNamePrefix grp \<and> f = activityFilter rt d (Group_Name grp)"
proof (induction groupIter)
  case Nil
  then show ?case by simp
next
  case (Cons grp rest)
  show ?case
  proof (cases "ActivityLogs_ListComplete f \<in> set (snd (cleanResourceGroup_body rt c d grp))")
    case True
    then show ?thesis by (simp add: body_query_mem)
  next
    case False
    with Cons.prems
    have "ActivityLogs_ListComplete f \<in> set (snd (cleanResourceGroup_loop rt c d rest))"
      by (auto simp add: loop_Cons_effects simp del: cleanResourceGroup_loop.simps
          split: control.splits)
    with Cons.IH show ?thesis by auto
  qed
qed

lemma pass_effects:
  "snd (cleanResourceGroup rt c) =
     (case groupsClient_ListComplete c of
        Inl err \<Rightarrow> []
      | Inr groupIter \<Rightarrow> snd (cleanResourceGroup_loop rt c (Now rt - gracePeriod) groupIter))"
  by (simp add: cleanResourceGroup_def split: sum.splits)






text \<open>
  C8. A resource group whose name starts neither with \<^verbatim>\<open>ci-\<close> nor with \<^verbatim>\<open>e2e\<close>:
  the decision is "keep" and is taken without any call, so whatever the activity log
  holds; the turn of the loop leaves nothing behind but the debug line
  \<^verbatim>\<open>checking resource group\<close> that is written for every group before the name is looked
  at (no line about the skip, no error); and in a whole pass, over any listing, no delete
  of a group of that name is issued and the activity log is never asked about that name.
\<close>

theorem other_group_never_deleted:
  assumes "\<not> prefix ''ci-'' (Group_Name grp)" and "\<not> prefix ''e2e'' (Group_Name grp)"
  shows "groupShouldBeDeleted rt c grp since = (Inr False, []) \<and>
         cleanResourceGroup_body rt c since grp = (Next, [logChecking (Group_Name grp)]) \<and>
         count_list (snd (cleanResourceGroup rt c)) (Groups_Delete (Group_Name grp)) = 0 \<and>
         ActivityLogs_ListComplete (activityFilter rt (Now rt - gracePeriod) (Group_Name grp))
           \<notin> set (snd (cleanResourceGroup rt c))"
proof -
  from assms have no: "\<not> groupHasTestNamePrefix grp"
    by (simp add: groupHasTestNamePrefix_iff)
  have same: "\<not> groupHasTestNamePrefix g" if "Group_Name g = Group_Name grp" for g
    using that assms by (simp add: groupHasTestNamePrefix_iff)
  have decision: "groupShouldBeDeleted rt c grp since = (Inr False, [])"
    using no by (rule groupShouldBeDeleted_not_test)
  then have turn: "cleanResourceGroup_body rt c since grp = (Next, [logChecking (Group_Name grp)])"
    by (simp add: Let_def cleanResourceGroup_body_def)
  have no_delete:
    "count_list (snd (cleanResourceGroup rt c)) (Groups_Delete (Group_Name grp)) = 0"
  proof (cases "groupsClient_ListComplete c")
    case (Inl err)
    then show ?thesis by (simp add: pass_effects)
  next
    case (Inr groupIter)
    have "\<not> 0 < count_list (snd (cleanResourceGroup_loop rt c (Now rt - gracePeriod) groupIter))
                 (Groups_Delete (Group_Name grp))"
      using loop_delete_source [of rt c "Now rt - gracePeriod" groupIter "Group_Name grp"] same
      by metis
    with Inr show ?thesis by (simp add: pass_effects)
  qed
  have no_query:
    "ActivityLogs_ListComplete (activityFilter rt (Now rt - gracePeriod) (Group_Name grp))
       \<notin> set (snd (cleanResourceGroup rt c))"
  proof (cases "groupsClient_ListComplete c")
    case (Inl err)
    then show ?thesis by (simp add: pass_effects)
  next
    case (Inr groupIter)
    have "ActivityLogs_ListComplete (activityFilter rt (Now rt - gracePeriod) (Group_Name grp))
            \<notin> set (snd (cleanResourceGroup_loop rt c (Now rt - gracePeriod) groupIter))"
      using loop_query_source
        [of "activityFilter rt (Now rt - gracePeriod) (Group_Name grp)" rt c
            "Now rt - gracePeriod" groupIter] same
      by (metis activityFilter_inj)
    with Inr show ?thesis by (simp add: pass_effects)
  qed
  from decision turn no_delete no_query show ?thesis by simp
qed

theorem other_group_never_deleted_witness:
  "groupShouldBeDeleted exampleRuntime exampleCleaner \<lparr>Group_Name = ''prod-shared''\<rparr>
     (Now exampleRuntime - gracePeriod) = (Inr False, []) \<and>
   count_list (snd (cleanResourceGroup exampleRuntime exampleCleaner))
     (Groups_Delete ''prod-shared'') = 0 \<and>
   ActivityLogs_ListComplete
     (activityFilter exampleRuntime (Now exampleRuntime - gracePeriod) ''prod-shared'')
     \<notin> set (snd (cleanResourceGroup exampleRuntime exampleCleaner))"
proof -
  have no_ci: "\<not> prefix ''ci-'' (Group_Name \<lparr>Group_Name = ''prod-shared''\<rparr>)" by simp
  have no_e2e: "\<not> prefix ''e2e'' (Group_Name \<lparr>Group_Name = ''prod-shared''\<rparr>)" by simp
  from other_group_never_deleted [OF no_ci no_e2e, of exampleRuntime exampleCleaner
      "Now exampleRuntime - gracePeriod"]
  show ?thesis by simp
qed

text \<open>
  C9. A test-named group whose activity query fails: the turn of the loop asks the
  activity log, writes one line that carries the message of the error, issues no delete
  and goes on; the loop over the group and the groups after it is that turn followed by
  the loop over the groups after it, with the result of the latter.
\<close>

theorem failed_activity_query_skips_group:
  assumes "prefix ''ci-'' (Group_Name grp) \<or> prefix ''e2e'' (Group_Name grp)"
    and "activityLogsClient_ListComplete c (activityFilter rt deadLine (Group_Name grp)) = Inl err"
  shows "cleanResourceGroup_body rt c deadLine grp =
           (Next,
            [logChecking (Group_Name grp),
             ActivityLogs_ListComplete (activityFilter rt deadLine (Group_Name grp)),
             Log [''level'', ''debug'', ''message'',
                  ''skipping resource group '' @ Sprintf_q (Group_Name grp) @ '' due to error'',
                  ''error'', Error err]]) \<and>
         cleanResourceGroup_loop rt c deadLine (grp # rest) =
           (fst (cleanResourceGroup_loop rt c deadLine rest),
            [logChecking (Group_Name grp),
             ActivityLogs_ListComplete (activityFilter rt deadLine (Group_Name grp)),
             Log [''level'', ''debug'', ''message'',
                  ''skipping resource group '' @ Sprintf_q (Group_Name grp) @ '' due to error'',
                  ''error'', Error err]]
            @ snd (cleanResourceGroup_loop rt c deadLine rest))"
proof -
  from assms(1) have test: "groupHasTestNamePrefix grp"
    by (simp add: groupHasTestNamePrefix_iff)
  have turn: "cleanResourceGroup_body rt c deadLine grp =
           (Next,
            [logChecking (Group_Name grp),
             ActivityLogs_ListComplete (activityFilter rt deadLine (Group_Name grp)),
             Log [''level'', ''debug'', ''message'',
                  ''skipping resource group '' @ Sprintf_q (Group_Name grp) @ '' due to error'',
                  ''error'', Error err]])"
    by (simp add: Let_def cleanResourceGroup_body_def logSkipping_def
        groupShouldBeDeleted_query_failed [OF test assms(2)])
  from loop_Cons_Next [OF turn] turn show ?thesis by simp
qed

theorem failed_activity_query_skips_group_witness:
  "fst (cleanResourceGroup_body exampleRuntime exampleCleaner
          (Now exampleRuntime - gracePeriod) \<lparr>Group_Name = ''ci-err''\<rparr>) = Next \<and>
   Groups_Delete ''ci-err''
     \<notin> set (snd (cleanResourceGroup_body exampleRuntime exampleCleaner
                     (Now exampleRuntime - gracePeriod) \<lparr>Group_Name = ''ci-err''\<rparr>))"
proof -
  have test: "prefix ''ci-'' (Group_Name \<lparr>Group_Name = ''ci-err''\<rparr>) \<or>
              prefix ''e2e'' (Group_Name \<lparr>Group_Name = ''ci-err''\<rparr>)"
    by simp
  have failed:
    "activityLogsClient_ListComplete exampleCleaner
       (activityFilter exampleRuntime (Now exampleRuntime - gracePeriod)
          (Group_Name \<lparr>Group_Name = ''ci-err''\<rparr>))
     = Inl (New ''throttled'')"
    by code_simp
  from failed_activity_query_skips_group [OF test failed, of "[]"]
  show ?thesis by (simp add: logChecking_def del: cleanResourceGroup_loop.simps)
qed




section \<open>The DNS record reaper: what one turn and one pass do\<close>

lemma resolvesApiName_hard_error:
  "resolver_LookupHost rt [dnsServerAddress] 5 (''api.'' @ name @ ''.'' @ zoneName)
     = (addresses, Some e) \<Longrightarrow>
   \<not> Contains (Error e) dnsFailureError \<Longrightarrow>
   resolvesApiName rt name =
     (Inl e, [Resolver_LookupHost [dnsServerAddress] 5 (''api.'' @ name @ ''.'' @ zoneName)])"
  by (simp add: resolvesApiName_def Let_def)

lemma resolvesApiName_servfail:
  "resolver_LookupHost rt [dnsServerAddress] 5 (''api.'' @ name @ ''.'' @ zoneName)
     = (addresses, Some e) \<Longrightarrow>
   Contains (Error e) dnsFailureError \<Longrightarrow>
   resolvesApiName rt name =
     (Inr (addresses \<noteq> []),
      [Resolver_LookupHost [dnsServerAddress] 5 (''api.'' @ name @ ''.'' @ zoneName)])"
  by (simp add: resolvesApiName_def Let_def)

lemma resolvesApiName_no_error:
  "resolver_LookupHost rt [dnsServerAddress] 5 (''api.'' @ name @ ''.'' @ zoneName)
     = (addresses, None) \<Longrightarrow>
   resolvesApiName rt name =
     (Inr (addresses \<noteq> []),
      [Resolver_LookupHost [dnsServerAddress] 5 (''api.'' @ name @ ''.'' @ zoneName)])"
  by (simp add: resolvesApiName_def Let_def)

lemma dnsRecordShouldBeDeleted_other_name:
  "\<not> isCIRecord (RecordSet_Name dnsRecord) \<Longrightarrow>
   dnsRecordShouldBeDeleted rt c dnsRecord since = (Inr False, [])"
  by (simp add: dnsRecordShouldBeDeleted_def)

lemma dnsRecordShouldBeDeleted_hard_error:
  "isCIRecord (RecordSet_Name dnsRecord) \<Longrightarrow>
   resolver_LookupHost rt [dnsServerAddress] 5
     (''api.'' @ RecordSet_Name dnsRecord @ ''.'' @ zoneName) = (addresses, Some e) \<Longrightarrow>
   \<not> Contains (Error e) dnsFailureError \<Longrightarrow>
   dnsRecordShouldBeDeleted rt c dnsRecord since =
     (Inr False,
      [Resolver_LookupHost [dnsServerAddress] 5
         (''api.'' @ RecordSet_Name dnsRecord @ ''.'' @ zoneName),
       logResolveWarning (RecordSet_Name dnsRecord) e])"
  by (simp add: dnsRecordShouldBeDeleted_def resolvesApiName_hard_error)

lemma dnsRecordShouldBeDeleted_servfail:
  "isCIRecord (RecordSet_Name dnsRecord) \<Longrightarrow>
   resolver_LookupHost rt [dnsServerAddress] 5
     (''api.'' @ RecordSet_Name dnsRecord @ ''.'' @ zoneName) = (addresses, Some e) \<Longrightarrow>
   Contains (Error e) dnsFailureError \<Longrightarrow>
   dnsRecordShouldBeDeleted rt c dnsRecord since =
     (Inr (addresses = []),
      [Resolver_LookupHost [dnsServerAddress] 5
         (''api.'' @ RecordSet_Name dnsRecord @ ''.'' @ zoneName)])"
  by (simp add: dnsRecordShouldBeDeleted_def resolvesApiName_servfail)

lemma dnsRecordShouldBeDeleted_no_error:
  "isCIRecord (RecordSet_Name dnsRecord) \<Longrightarrow>
   resolver_LookupHost rt [dnsServerAddress] 5
     (''api.'' @ RecordSet_Name dnsRecord @ ''.'' @ zoneName) = (addresses, None) \<Longrightarrow>
   dnsRecordShouldBeDeleted rt c dnsRecord since =
     (Inr (addresses = []),
      [Resolver_LookupHost [dnsServerAddress] 5
         (''api.'' @ RecordSet_Name dnsRecord @ ''.'' @ zoneName)])"
  by (simp add: dnsRecordShouldBeDeleted_def resolvesApiName_no_error)

lemma dnsRecordShouldBeDeleted_decision:
  "fst (dnsRecordShouldBeDeleted rt c dnsRecord since) =
     Inr (isCIRecord (RecordSet_Name dnsRecord) \<and>
          (case resolver_LookupHost rt [dnsServerAddress] 5
                  (''api.'' @ RecordSet_Name dnsRecord @ ''.'' @ zoneName) of
             (addresses, err) \<Rightarrow>
               addresses = [] \<and>
               (case err of None \<Rightarrow> True | Some e \<Rightarrow> Contains (Error e) dnsFailureError)))"
proof (cases "isCIRecord (RecordSet_Name dnsRecord)")
  case False
  then show ?thesis by (simp add: dnsRecordShouldBeDeleted_other_name)
next
  case True
  obtain addresses err where answer:
    "resolver_LookupHost rt [dnsServerAddress] 5
       (''api.'' @ RecordSet_Name dnsRecord @ ''.'' @ zoneName) = (addresses, err)"
    by (cases "resolver_LookupHost rt [dnsServerAddress] 5
                 (''api.'' @ RecordSet_Name dnsRecord @ ''.'' @ zoneName)")
  show ?thesis
  proof (cases err)
    case None
    with True answer show ?thesis
      by (simp add: dnsRecordShouldBeDeleted_no_error)
  next
    case (Some e)
    show ?thesis
    proof (cases "Contains (Error e) dnsFailureError")
      case servfail: True
      with True answer Some show ?thesis
        by (simp add: dnsRecordShouldBeDeleted_servfail)
    next
      case other: False
      with True answer Some show ?thesis
        by (simp add: dnsRecordShouldBeDeleted_hard_error)
    qed
  qed
qed

lemma dnsRecordShouldBeDeleted_since:
  "dnsRecordShouldBeDeleted rt c dnsRecord since = dnsRecordShouldBeDeleted rt c dnsRecord since'"
  by (simp add: dnsRecordShouldBeDeleted_def)

lemma dnsRecordShouldBeDeleted_no_delete:
  "RecordSets_Delete a b n t e \<notin> set (snd (dnsRecordShouldBeDeleted rt c dnsRecord since))"
proof (cases "isCIRecord (RecordSet_Name dnsRecord)")
  case False
  then show ?thesis by (simp add: dnsRecordShouldBeDeleted_other_name)
next
  case True
  obtain addresses err where answer:
    "resolver_LookupHost rt [dnsServerAddress] 5
       (''api.'' @ RecordSet_Name dnsRecord @ ''.'' @ zoneName) = (addresses, err)"
    by (cases "resolver_LookupHost rt [dnsServerAddress] 5
                 (''api.'' @ RecordSet_Name dnsRecord @ ''.'' @ zoneName)")
  show ?thesis
  proof (cases err)
    case None
    with True answer show ?thesis
      by (simp add: dnsRecordShouldBeDeleted_no_error)
  next
    case (Some e)
    show ?thesis
    proof (cases "Contains (Error e) dnsFailureError")
      case servfail: True
      with True answer Some show ?thesis
        by (simp add: dnsRecordShouldBeDeleted_servfail)
    next
      case other: False
      with True answer Some show ?thesis
        by (simp add: dnsRecordShouldBeDeleted_hard_error logResolveWarning_def)
    qed
  qed
qed

lemma dns_body_delete_mem:
  "RecordSets_Delete a b n t e
     \<in> set (snd (cleanDelegateDNSRecords_body rt c d lastError dnsRecord)) \<longleftrightarrow>
   a = resourceGroup \<and> b = zoneName \<and> n = RecordSet_Name dnsRecord \<and> t = ''NS'' \<and>
   e = Etag dnsRecord \<and> fst (dnsRecordShouldBeDeleted rt c dnsRecord d) = Inr True"
proof (cases "dnsRecordShouldBeDeleted rt c dnsRecord d")
  case (Pair r fx)
  with dnsRecordShouldBeDeleted_no_delete [of a b n t e rt c dnsRecord d]
  have clean: "RecordSets_Delete a b n t e \<notin> set fx" by simp
  from Pair dnsRecordShouldBeDeleted_decision [of rt c dnsRecord d]
  obtain del where r: "r = Inr del" by auto
  show ?thesis
    using Pair r clean
    by (auto simp add: cleanDelegateDNSRecords_body_def Let_def deleteRecord_def log_defs
        split: option.splits)
qed

lemma dns_body_lastError:
  "fst (cleanDelegateDNSRecords_body rt c d lastError dnsRecord) =
     (if fst (dnsRecordShouldBeDeleted rt c dnsRecord d) = Inr True
      then (case fst (deleteRecord c dnsRecord) of Some err \<Rightarrow> Some err | None \<Rightarrow> lastError)
      else lastError)"
proof (cases "dnsRecordShouldBeDeleted rt c dnsRecord d")
  case (Pair r fx)
  from Pair dnsRecordShouldBeDeleted_decision [of rt c dnsRecord d]
  obtain del where r: "r = Inr del" by auto
  show ?thesis
    using Pair r
    by (auto simp add: cleanDelegateDNSRecords_body_def Let_def deleteRecord_def
        split: option.splits)
qed

lemma dns_body_effects_lastError:
  "snd (cleanDelegateDNSRecords_body rt c d lastError dnsRecord) =
   snd (cleanDelegateDNSRecords_body rt c d lastError' dnsRecord)"
  by (simp add: cleanDelegateDNSRecords_body_def Let_def
      split: prod.splits sum.splits option.splits)

lemma dns_loop_Cons:
  "cleanDelegateDNSRecords_loop rt c d lastError (dnsRecord # rest) =
     (fst (cleanDelegateDNSRecords_loop rt c d
             (fst (cleanDelegateDNSRecords_body rt c d lastError dnsRecord)) rest),
      snd (cleanDelegateDNSRecords_body rt c d lastError dnsRecord)
      @ snd (cleanDelegateDNSRecords_loop rt c d
               (fst (cleanDelegateDNSRecords_body rt c d lastError dnsRecord)) rest))"
  by (simp split: prod.splits)

lemma dns_loop_delete_mem:
  "RecordSets_Delete a b n t e \<in> set (snd (cleanDelegateDNSRecords_loop rt c d lastError recordsIter))
   \<longleftrightarrow> (\<exists>dnsRecord \<in> set recordsIter.
          a = resourceGroup \<and> b = zoneName \<and> n = RecordSet_Name dnsRecord \<and> t = ''NS'' \<and>
          e = Etag dnsRecord \<and> fst (dnsRecordShouldBeDeleted rt c dnsRecord d) = Inr True)"
proof (induction recordsIter arbitrary: lastError)
  case Nil
  show ?case by simp
next
  case (Cons dnsRecord rest)
  show ?case
    by (simp only: dns_loop_Cons snd_conv set_append Un_iff dns_body_delete_mem Cons.IH
        set_simps bex_simps insert_iff) blast
qed

lemma dns_loop_result:
  "fst (cleanDelegateDNSRecords_loop rt c d lastError recordsIter) =
     (if failedDeletes rt c d recordsIter = [] then lastError
      else Some (last (failedDeletes rt c d recordsIter)))"
proof (induction recordsIter arbitrary: lastError)
  case Nil
  show ?case by simp
next
  case (Cons dnsRecord rest)
  show ?case
    by (simp add: dns_loop_Cons Cons.IH dns_body_lastError
        del: cleanDelegateDNSRecords_loop.simps split: option.splits)
qed

lemma dns_pass_effects:
  "dnsRecordSetsClient_ListAllByDNSZoneComplete c resourceGroup zoneName = Inr recordsIter \<Longrightarrow>
   snd (cleanDelegateDNSRecords rt c) =
     snd (cleanDelegateDNSRecords_loop rt c (Now rt - gracePeriod) None recordsIter)"
  by (simp add: cleanDelegateDNSRecords_def split: prod.splits option.splits)

lemma dns_pass_result:
  "dnsRecordSetsClient_ListAllByDNSZoneComplete c resourceGroup zoneName = Inr recordsIter \<Longrightarrow>
   fst (cleanDelegateDNSRecords rt c) =
     (case fst (cleanDelegateDNSRecords_loop rt c (Now rt - gracePeriod) None recordsIter) of
        Some e \<Rightarrow> Some (Mask e) | None \<Rightarrow> None)"
  by (simp add: cleanDelegateDNSRecords_def split: prod.splits option.splits)

text \<open>
  C2. A record of the listing of the zone: the pass issues the delete of the record (zone
  \<^verbatim>\<open>azure.gigantic.io\<close>, type NS, with the etag of the record) if and only if the name
  passes \<open>isCIRecord\<close> and the lookup of \<^verbatim>\<open>api.<name>.azure.gigantic.io\<close> at 8.8.8.8, with
  five retries, came back with zero addresses, that is, with no address and with no error
  other than a \<^verbatim>\<open>SERVFAIL\<close> one; otherwise no delete of the record is issued.
\<close>

theorem stale_record_deleted_iff:
  assumes "dnsRecordSetsClient_ListAllByDNSZoneComplete c resourceGroup zoneName = Inr recordsIter"
    and "dnsRecord \<in> set recordsIter"
  shows "RecordSets_Delete ''root_dns_zone_rg'' ''azure.gigantic.io'' (RecordSet_Name dnsRecord)
           ''NS'' (Etag dnsRecord)
           \<in> set (snd (cleanDelegateDNSRecords rt c))
         \<longleftrightarrow>
         isCIRecord (RecordSet_Name dnsRecord) \<and>
         (case resolver_LookupHost rt [''8.8.8.8''] 5
                 (''api.'' @ RecordSet_Name dnsRecord @ ''.azure.gigantic.io'') of
            (addresses, err) \<Rightarrow>
              addresses = [] \<and>
              (case err of None \<Rightarrow> True | Some e \<Rightarrow> Contains (Error e) ''SERVFAIL''))"
proof -
  have host: "''api.'' @ RecordSet_Name r @ ''.azure.gigantic.io''
                = ''api.'' @ RecordSet_Name r @ ''.'' @ zoneName" for r
    by (simp add: zoneName_def)
  have decision:
    "fst (dnsRecordShouldBeDeleted rt c r (Now rt - gracePeriod)) = Inr True \<longleftrightarrow>
     isCIRecord (RecordSet_Name r) \<and>
     (case resolver_LookupHost rt [''8.8.8.8''] 5
             (''api.'' @ RecordSet_Name r @ ''.azure.gigantic.io'') of
        (addresses, err) \<Rightarrow>
          addresses = [] \<and>
          (case err of None \<Rightarrow> True | Some e \<Rightarrow> Contains (Error e) ''SERVFAIL''))" for r
    unfolding host
    by (simp add: dnsRecordShouldBeDeleted_decision dnsServerAddress_def dnsFailureError_def
        split: prod.splits option.splits)
  have "RecordSets_Delete ''root_dns_zone_rg'' ''azure.gigantic.io'' (RecordSet_Name dnsRecord)
           ''NS'' (Etag dnsRecord)
           \<in> set (snd (cleanDelegateDNSRecords rt c))
        \<longleftrightarrow> (\<exists>r \<in> set recordsIter.
              RecordSet_Name dnsRecord = RecordSet_Name r \<and> Etag dnsRecord = Etag r \<and>
              fst (dnsRecordShouldBeDeleted rt c r (Now rt - gracePeriod)) = Inr True)"
    by (simp add: dns_pass_effects [OF assms(1)] dns_loop_delete_mem resourceGroup_def
        zoneName_def)
  also have "\<dots> \<longleftrightarrow> fst (dnsRecordShouldBeDeleted rt c dnsRecord (Now rt - gracePeriod)) = Inr True"
  proof
    assume "\<exists>r \<in> set recordsIter.
              RecordSet_Name dnsRecord = RecordSet_Name r \<and> Etag dnsRecord = Etag r \<and>
              fst (dnsRecordShouldBeDeleted rt c r (Now rt - gracePeriod)) = Inr True"
    then obtain r where "RecordSet_Name dnsRecord = RecordSet_Name r"
      and "fst (dnsRecordShouldBeDeleted rt c r (Now rt - gracePeriod)) = Inr True"
      by blast
    then show "fst (dnsRecordShouldBeDeleted rt c dnsRecord (Now rt - gracePeriod)) = Inr True"
      by (simp add: decision)
  next
    assume "fst (dnsRecordShouldBeDeleted rt c dnsRecord (Now rt - gracePeriod)) = Inr True"
    with assms(2) show "\<exists>r \<in> set recordsIter.
              RecordSet_Name dnsRecord = RecordSet_Name r \<and> Etag dnsRecord = Etag r \<and>
              fst (dnsRecordShouldBeDeleted rt c r (Now rt - gracePeriod)) = Inr True"
      by blast
  qed
  finally show ?thesis by (simp only: decision)
qed

theorem stale_record_deleted_iff_witness:
  "RecordSets_Delete ''root_dns_zone_rg'' ''azure.gigantic.io'' ''e2eterraform-gone'' ''NS'' ''5''
     \<in> set (snd (cleanDelegateDNSRecords exampleRuntime exampleCleaner)) \<and>
   RecordSets_Delete ''root_dns_zone_rg'' ''azure.gigantic.io'' ''e2eterraform-xyz'' ''NS'' ''3''
     \<notin> set (snd (cleanDelegateDNSRecords exampleRuntime exampleCleaner))"
proof -
  let ?rs = "[\<lparr>RecordSet_Name = ''e2eterraform-a'', Etag = ''1''\<rparr>,
             \<lparr>RecordSet_Name = ''e2eabcd.westeurope'', Etag = ''2''\<rparr>,
             \<lparr>RecordSet_Name = ''e2eterraform-xyz'', Etag = ''3''\<rparr>,
             \<lparr>RecordSet_Name = ''www'', Etag = ''4''\<rparr>,
             \<lparr>RecordSet_Name = ''e2eterraform-gone'', Etag = ''5''\<rparr>]"
  let ?gone = "\<lparr>RecordSet_Name = ''e2eterraform-gone'', Etag = ''5''\<rparr>"
  let ?live = "\<lparr>RecordSet_Name = ''e2eterraform-xyz'', Etag = ''3''\<rparr>"
  have listing:
    "dnsRecordSetsClient_ListAllByDNSZoneComplete exampleCleaner resourceGroup zoneName = Inr ?rs"
    by (simp add: exampleCleaner_def)
  have gone_in: "?gone \<in> set ?rs" and live_in: "?live \<in> set ?rs" by simp_all
  have gone:
    "isCIRecord (RecordSet_Name ?gone) \<and>
     (case resolver_LookupHost exampleRuntime [''8.8.8.8''] 5
             (''api.'' @ RecordSet_Name ?gone @ ''.azure.gigantic.io'') of
        (addresses, err) \<Rightarrow>
          addresses = [] \<and>
          (case err of None \<Rightarrow> True | Some e \<Rightarrow> Contains (Error e) ''SERVFAIL''))"
    by code_simp
  have live:
    "\<not> (isCIRecord (RecordSet_Name ?live) \<and>
     (case resolver_LookupHost exampleRuntime [''8.8.8.8''] 5
             (''api.'' @ RecordSet_Name ?live @ ''.azure.gigantic.io'') of
        (addresses, err) \<Rightarrow>
          addresses = [] \<and>
          (case err of None \<Rightarrow> True | Some e \<Rightarrow> Contains (Error e) ''SERVFAIL'')))"
    by code_simp
  from stale_record_deleted_iff [OF listing gone_in, of exampleRuntime] gone
  have deleted:
    "RecordSets_Delete ''root_dns_zone_rg'' ''azure.gigantic.io'' (RecordSet_Name ?gone) ''NS''
       (Etag ?gone)
     \<in> set (snd (cleanDelegateDNSRecords exampleRuntime exampleCleaner))"
    by blast
  from stale_record_deleted_iff [OF listing live_in, of exampleRuntime] live
  have kept:
    "RecordSets_Delete ''root_dns_zone_rg'' ''azure.gigantic.io'' (RecordSet_Name ?live) ''NS''
       (Etag ?live)
     \<notin> set (snd (cleanDelegateDNSRecords exampleRuntime exampleCleaner))"
    by blast
  from deleted kept show ?thesis by simp
qed

text \<open>
  C3, as the code has it. A record with an eligible name whose lookup ends in an error
  that is not a \<^verbatim>\<open>SERVFAIL\<close> one: \<open>dnsRecordShouldBeDeleted\<close> writes a warning with the
  message of the error and answers "keep" with a nil error; the turn of the loop issues
  no delete, writes that the record is kept and hands on \<^verbatim>\<open>lastError\<close> as it received it,
  so the error of the lookup does not reach the result of the pass.
\<close>

theorem resolution_error_keeps_record:
  assumes "isCIRecord (RecordSet_Name dnsRecord)"
    and "resolver_LookupHost rt [dnsServerAddress] 5
           (''api.'' @ RecordSet_Name dnsRecord @ ''.'' @ zoneName) = (addresses, Some e)"
    and "\<not> Contains (Error e) dnsFailureError"
  shows "dnsRecordShouldBeDeleted rt c dnsRecord since =
           (Inr False,
            [Resolver_LookupHost [dnsServerAddress] 5
               (''api.'' @ RecordSet_Name dnsRecord @ ''.'' @ zoneName),
             Log [''level'', ''warning'', ''message'',
                  ''Unexpected error when trying to resolve '' @ RecordSet_Name dnsRecord
                    @ '': '' @ Error e]]) \<and>
         cleanDelegateDNSRecords_body rt c since lastError dnsRecord =
           (lastError,
            [Resolver_LookupHost [dnsServerAddress] 5
               (''api.'' @ RecordSet_Name dnsRecord @ ''.'' @ zoneName),
             Log [''level'', ''warning'', ''message'',
                  ''Unexpected error when trying to resolve '' @ RecordSet_Name dnsRecord
                    @ '': '' @ Error e],
             logHasToBeKept (RecordSet_Name dnsRecord)]) \<and>
         fst (cleanDelegateDNSRecords_loop rt c since lastError (dnsRecord # rest)) =
           fst (cleanDelegateDNSRecords_loop rt c since lastError rest)"
proof -
  have decision: "dnsRecordShouldBeDeleted rt c dnsRecord since =
           (Inr False,
            [Resolver_LookupHost [dnsServerAddress] 5
               (''api.'' @ RecordSet_Name dnsRecord @ ''.'' @ zoneName),
             Log [''level'', ''warning'', ''message'',
                  ''Unexpected error when trying to resolve '' @ RecordSet_Name dnsRecord
                    @ '': '' @ Error e]])"
    using dnsRecordShouldBeDeleted_hard_error [OF assms]
    by (simp add: logResolveWarning_def)
  then have turn: "cleanDelegateDNSRecords_body rt c since lastError dnsRecord =
           (lastError,
            [Resolver_LookupHost [dnsServerAddress] 5
               (''api.'' @ RecordSet_Name dnsRecord @ ''.'' @ zoneName),
             Log [''level'', ''warning'', ''message'',
                  ''Unexpected error when trying to resolve '' @ RecordSet_Name dnsRecord
                    @ '': '' @ Error e],
             logHasToBeKept (RecordSet_Name dnsRecord)])"
    by (simp add: cleanDelegateDNSRecords_body_def Let_def)
  have "fst (cleanDelegateDNSRecords_loop rt c since lastError (dnsRecord # rest)) =
           fst (cleanDelegateDNSRecords_loop rt c since lastError rest)"
    by (simp add: dns_loop_Cons turn del: cleanDelegateDNSRecords_loop.simps)
  with decision turn show ?thesis by simp
qed

theorem resolution_error_keeps_record_witness:
  "fst (dnsRecordShouldBeDeleted exampleRuntime exampleCleaner
          \<lparr>RecordSet_Name = ''e2eterraform-a'', Etag = ''1''\<rparr> 0) = Inr False \<and>
   fst (cleanDelegateDNSRecords_body exampleRuntime exampleCleaner 0 None
          \<lparr>RecordSet_Name = ''e2eterraform-a'', Etag = ''1''\<rparr>) = None"
proof -
  let ?r = "\<lparr>RecordSet_Name = ''e2eterraform-a'', Etag = ''1''\<rparr>"
  have ci: "isCIRecord (RecordSet_Name ?r)" by code_simp
  have answer:
    "resolver_LookupHost exampleRuntime [dnsServerAddress] 5
       (''api.'' @ RecordSet_Name ?r @ ''.'' @ zoneName)
     = ([], Some (New ''read udp 8.8.8.8:53: i/o timeout''))"
    by code_simp
  have hard: "\<not> Contains (Error (New ''read udp 8.8.8.8:53: i/o timeout'')) dnsFailureError"
    by code_simp
  from resolution_error_keeps_record [OF ci answer hard, of exampleCleaner 0 None "[]"]
  show ?thesis by (simp del: cleanDelegateDNSRecords_loop.simps)
qed

text \<open>
  The claim as written fails on the sample account reduced to the record
  \<^verbatim>\<open>e2eterraform-a\<close>: its lookup times out, and the pass returns nil.
\<close>

theorem resolution_error_not_returned_counterexample:
  "isCIRecord ''e2eterraform-a'' \<and>
   resolver_LookupHost exampleRuntime [dnsServerAddress] 5
     (''api.'' @ ''e2eterraform-a'' @ ''.'' @ zoneName)
     = ([], Some (New ''read udp 8.8.8.8:53: i/o timeout'')) \<and>
   \<not> Contains (Error (New ''read udp 8.8.8.8:53: i/o timeout'')) dnsFailureError \<and>
   dnsRecordSetsClient_ListAllByDNSZoneComplete timeoutOnlyCleaner resourceGroup zoneName
     = Inr [\<lparr>RecordSet_Name = ''e2eterraform-a'', Etag = ''1''\<rparr>] \<and>
   fst (cleanDelegateDNSRecords exampleRuntime timeoutOnlyCleaner) = None"
  by code_simp

text \<open>
  C7. A lookup that ends in an error. When the message of the error contains
  \<^verbatim>\<open>SERVFAIL\<close>, the probe reports no error and answers by the number of addresses alone;
  with no address (the resolver gives none with an error) the probe and the decision are
  those of a lookup that returned zero addresses without error, the decision is "delete"
  exactly for an eligible name, and the turn of the loop then issues the delete. When the
  message does not contain \<^verbatim>\<open>SERVFAIL\<close>, the decision is "keep" and the turn issues no delete.
\<close>

theorem servfail_counts_as_no_address:
  assumes "resolver_LookupHost rt [dnsServerAddress] 5
             (''api.'' @ RecordSet_Name dnsRecord @ ''.'' @ zoneName) = (addresses, Some e)"
  shows "(Contains (Error e) dnsFailureError \<longrightarrow>
            fst (resolvesApiName rt (RecordSet_Name dnsRecord)) = Inr (addresses \<noteq> []) \<and>
            (addresses = [] \<longrightarrow>
               fst (dnsRecordShouldBeDeleted rt c dnsRecord since)
                 = Inr (isCIRecord (RecordSet_Name dnsRecord)) \<and>
               (\<forall>rt'. resolver_LookupHost rt' [dnsServerAddress] 5
                        (''api.'' @ RecordSet_Name dnsRecord @ ''.'' @ zoneName) = ([], None)
                  \<longrightarrow> resolvesApiName rt (RecordSet_Name dnsRecord)
                        = resolvesApiName rt' (RecordSet_Name dnsRecord) \<and>
                      dnsRecordShouldBeDeleted rt c dnsRecord since
                        = dnsRecordShouldBeDeleted rt' c dnsRecord since) \<and>
               (isCIRecord (RecordSet_Name dnsRecord) \<longrightarrow>
                  RecordSets_Delete resourceGroup zoneName (RecordSet_Name dnsRecord) ''NS''
                    (Etag dnsRecord)
                  \<in> set (snd (cleanDelegateDNSRecords_body rt c since lastError dnsRecord))))) \<and>
         (\<not> Contains (Error e) dnsFailureError \<longrightarrow>
            fst (dnsRecordShouldBeDeleted rt c dnsRecord since) = Inr False \<and>
            (\<forall>a b n t g. RecordSets_Delete a b n t g
               \<notin> set (snd (cleanDelegateDNSRecords_body rt c since lastError dnsRecord))))"
proof (intro conjI impI allI)
  assume sf: "Contains (Error e) dnsFailureError"
  from resolvesApiName_servfail [OF assms sf]
  show "fst (resolvesApiName rt (RecordSet_Name dnsRecord)) = Inr (addresses \<noteq> [])"
    by simp
next
  assume sf: "Contains (Error e) dnsFailureError" and none: "addresses = []"
  from assms sf none
  show "fst (dnsRecordShouldBeDeleted rt c dnsRecord since)
          = Inr (isCIRecord (RecordSet_Name dnsRecord))"
    by (simp add: dnsRecordShouldBeDeleted_decision)
next
  fix rt' :: Runtime
  assume sf: "Contains (Error e) dnsFailureError" and none: "addresses = []"
    and other: "resolver_LookupHost rt' [dnsServerAddress] 5
                  (''api.'' @ RecordSet_Name dnsRecord @ ''.'' @ zoneName) = ([], None)"
  from resolvesApiName_servfail [OF assms sf] resolvesApiName_no_error [OF other] none
  show "resolvesApiName rt (RecordSet_Name dnsRecord)
          = resolvesApiName rt' (RecordSet_Name dnsRecord)"
    by simp
  then show "dnsRecordShouldBeDeleted rt c dnsRecord since
          = dnsRecordShouldBeDeleted rt' c dnsRecord since"
    by (simp add: dnsRecordShouldBeDeleted_def)
next
  assume sf: "Contains (Error e) dnsFailureError" and none: "addresses = []"
    and ci: "isCIRecord (RecordSet_Name dnsRecord)"
  from assms sf none ci
  show "RecordSets_Delete resourceGroup zoneName (RecordSet_Name dnsRecord) ''NS''
          (Etag dnsRecord)
        \<in> set (snd (cleanDelegateDNSRecords_body rt c since lastError dnsRecord))"
    by (simp add: dns_body_delete_mem dnsRecordShouldBeDeleted_decision)
next
  assume hard: "\<not> Contains (Error e) dnsFailureError"
  with assms show keep: "fst (dnsRecordShouldBeDeleted rt c dnsRecord since) = Inr False"
    by (simp add: dnsRecordShouldBeDeleted_decision)
  fix a b n t g
  from keep show "RecordSets_Delete a b n t g
               \<notin> set (snd (cleanDelegateDNSRecords_body rt c since lastError dnsRecord))"
    by (simp add: dns_body_delete_mem)
qed

theorem servfail_counts_as_no_address_witness:
  "fst (dnsRecordShouldBeDeleted exampleRuntime exampleCleaner
          \<lparr>RecordSet_Name = ''e2eabcd.westeurope'', Etag = ''2''\<rparr> 0) = Inr True \<and>
   fst (dnsRecordShouldBeDeleted exampleRuntime exampleCleaner
          \<lparr>RecordSet_Name = ''e2eterraform-a'', Etag = ''1''\<rparr> 0) = Inr False"
proof -
  let ?sf = "\<lparr>RecordSet_Name = ''e2eabcd.westeurope'', Etag = ''2''\<rparr>"
  let ?to = "\<lparr>RecordSet_Name = ''e2eterraform-a'', Etag = ''1''\<rparr>"
  have sf_answer:
    "resolver_LookupHost exampleRuntime [dnsServerAddress] 5
       (''api.'' @ RecordSet_Name ?sf @ ''.'' @ zoneName) = ([], Some (New ''SERVFAIL''))"
    by code_simp
  have sf: "Contains (Error (New ''SERVFAIL'')) dnsFailureError" by code_simp
  have sf_ci: "isCIRecord (RecordSet_Name ?sf)" by code_simp
  have to_answer:
    "resolver_LookupHost exampleRuntime [dnsServerAddress] 5
       (''api.'' @ RecordSet_Name ?to @ ''.'' @ zoneName)
     = ([], Some (New ''read udp 8.8.8.8:53: i/o timeout''))"
    by code_simp
  have hard: "\<not> Contains (Error (New ''read udp 8.8.8.8:53: i/o timeout'')) dnsFailureError"
    by code_simp
  from servfail_counts_as_no_address [OF sf_answer, of exampleCleaner 0 None] sf sf_ci
  have one: "fst (dnsRecordShouldBeDeleted exampleRuntime exampleCleaner ?sf 0) = Inr True"
    by (simp del: Contains.simps)
  from servfail_counts_as_no_address [OF to_answer, of exampleCleaner 0 None] hard
  have two: "fst (dnsRecordShouldBeDeleted exampleRuntime exampleCleaner ?to 0) = Inr False"
    by (simp del: Contains.simps)
  from one two show ?thesis by simp
qed

lemma dnsRecordShouldBeDeleted_Now:
  "dnsRecordShouldBeDeleted (rt\<lparr>Now := t\<rparr>) c dnsRecord d =
   dnsRecordShouldBeDeleted rt c dnsRecord d'"
  by (simp add: dnsRecordShouldBeDeleted_def resolvesApiName_def)

lemma dns_body_Now:
  "cleanDelegateDNSRecords_body (rt\<lparr>Now := t\<rparr>) c d lastError dnsRecord =
   cleanDelegateDNSRecords_body rt c d' lastError dnsRecord"
  by (simp add: cleanDelegateDNSRecords_body_def Let_def
      dnsRecordShouldBeDeleted_Now [where d' = d']
      logCheckFailed_def logDeleteFailed_def
      split: prod.splits sum.splits option.splits)

lemma dns_loop_Now:
  "cleanDelegateDNSRecords_loop (rt\<lparr>Now := t\<rparr>) c d lastError recordsIter =
   cleanDelegateDNSRecords_loop rt c d' lastError recordsIter"
  by (induction recordsIter arbitrary: lastError) (simp_all add: dns_body_Now [where d' = d'])

text \<open>
  C10. The decision on a record does not depend on the \<^verbatim>\<open>since\<close> argument: for any two
  values the decision and its effects are the same, so is the loop over any records, and
  a pass gives the same result and the same effects whatever the clock shows.
\<close>

theorem dns_decision_ignores_cutoff:
  "dnsRecordShouldBeDeleted rt c dnsRecord since = dnsRecordShouldBeDeleted rt c dnsRecord since' \<and>
   cleanDelegateDNSRecords_loop rt c since lastError recordsIter =
     cleanDelegateDNSRecords_loop rt c since' lastError recordsIter \<and>
   cleanDelegateDNSRecords (rt\<lparr>Now := t\<rparr>) c = cleanDelegateDNSRecords (rt\<lparr>Now := t'\<rparr>) c"
proof (intro conjI)
  show "dnsRecordShouldBeDeleted rt c dnsRecord since = dnsRecordShouldBeDeleted rt c dnsRecord since'"
    by (rule dnsRecordShouldBeDeleted_since)
  show "cleanDelegateDNSRecords_loop rt c since lastError recordsIter =
     cleanDelegateDNSRecords_loop rt c since' lastError recordsIter"
    using dns_loop_Now [where rt = rt and t = "Now rt" and d = since and d' = since'] by simp
  show "cleanDelegateDNSRecords (rt\<lparr>Now := t\<rparr>) c = cleanDelegateDNSRecords (rt\<lparr>Now := t'\<rparr>) c"
  proof (cases "dnsRecordSetsClient_ListAllByDNSZoneComplete c resourceGroup zoneName")
    case (Inl err)
    then show ?thesis by (simp add: cleanDelegateDNSRecords_def)
  next
    case (Inr recordsIter)
    then show ?thesis
      by (simp add: cleanDelegateDNSRecords_def dns_loop_Now [where d' = 0])
  qed
qed


text \<open>
  C4. A test-named group without events whose delete fails, either when the call is made
  or, with a status other than 404, when its response is read: the loop returns the
  masked error at once, and nothing is done for the groups after it. A record that has
  to be deleted and whose delete fails: the loop goes on with the records after it,
  carrying the error as \<^verbatim>\<open>lastError\<close>; a pass over the whole listing issues the delete of
  every record that has to be deleted and returns the masked error of the last delete
  that failed, or nil when none failed.
\<close>

theorem delete_failure_aborts_groups_not_records:
  "((prefix ''ci-'' (Group_Name grp) \<or> prefix ''e2e'' (Group_Name grp)) \<and>
    activityLogsClient_ListComplete c (activityFilter rt deadLine (Group_Name grp)) = Inr [] \<and>
    groupsClient_Delete c (Group_Name grp) = Inl err
    \<longrightarrow> cleanResourceGroup_loop rt c deadLine (grp # rest) =
          (Some (Mask err),
           [logChecking (Group_Name grp),
            ActivityLogs_ListComplete (activityFilter rt deadLine (Group_Name grp)),
            Groups_Delete (Group_Name grp),
            logDeletionFailed (Group_Name grp) err])) \<and>
   ((prefix ''ci-'' (Group_Name grp) \<or> prefix ''e2e'' (Group_Name grp)) \<and>
    activityLogsClient_ListComplete c (activityFilter rt deadLine (Group_Name grp)) = Inr [] \<and>
    groupsClient_Delete c (Group_Name grp) = Inr respFuture \<and>
    groupsClient_DeleteResponder c respFuture = (res, Some err) \<and>
    (\<forall>resp. Response res = Some resp \<longrightarrow> StatusCode resp \<noteq> 404)
    \<longrightarrow> cleanResourceGroup_loop rt c deadLine (grp # rest) =
          (Some (Mask err),
           [logChecking (Group_Name grp),
            ActivityLogs_ListComplete (activityFilter rt deadLine (Group_Name grp)),
            Groups_Delete (Group_Name grp),
            logDeletionFailed (Group_Name grp) err])) \<and>
   (fst (dnsRecordShouldBeDeleted rt c dnsRecord deadLine) = Inr True \<and>
    dnsRecordSetsClient_Delete c resourceGroup zoneName (RecordSet_Name dnsRecord) ''NS''
      (Etag dnsRecord) = Some derr
    \<longrightarrow> cleanDelegateDNSRecords_loop rt c deadLine lastError (dnsRecord # recordsIter) =
          (fst (cleanDelegateDNSRecords_loop rt c deadLine (Some derr) recordsIter),
           snd (cleanDelegateDNSRecords_body rt c deadLine lastError dnsRecord)
           @ snd (cleanDelegateDNSRecords_loop rt c deadLine (Some derr) recordsIter))) \<and>
   (dnsRecordSetsClient_ListAllByDNSZoneComplete c resourceGroup zoneName = Inr recordsIter
    \<longrightarrow> fst (cleanDelegateDNSRecords rt c) =
          (if failedDeletes rt c (Now rt - gracePeriod) recordsIter = [] then None
           else Some (Mask (last (failedDeletes rt c (Now rt - gracePeriod) recordsIter)))) \<and>
        (\<forall>r \<in> set recordsIter.
           fst (dnsRecordShouldBeDeleted rt c r (Now rt - gracePeriod)) = Inr True
           \<longrightarrow> RecordSets_Delete resourceGroup zoneName (RecordSet_Name r) ''NS'' (Etag r)
                 \<in> set (snd (cleanDelegateDNSRecords rt c))))"
proof (intro conjI impI ballI)
  assume h: "(prefix ''ci-'' (Group_Name grp) \<or> prefix ''e2e'' (Group_Name grp)) \<and>
    activityLogsClient_ListComplete c (activityFilter rt deadLine (Group_Name grp)) = Inr [] \<and>
    groupsClient_Delete c (Group_Name grp) = Inl err"
  then have test: "groupHasTestNamePrefix grp"
    by (simp add: groupHasTestNamePrefix_iff)
  from h have idle:
    "activityLogsClient_ListComplete c (activityFilter rt deadLine (Group_Name grp)) = Inr []"
    by simp
  from h have "cleanResourceGroup_body rt c deadLine grp =
          (Return (Mask err),
           [logChecking (Group_Name grp),
            ActivityLogs_ListComplete (activityFilter rt deadLine (Group_Name grp)),
            Groups_Delete (Group_Name grp),
            logDeletionFailed (Group_Name grp) err])"
    by (simp add: cleanResourceGroup_body_def Let_def groupShouldBeDeleted_query_ok [OF test idle])
  then show "cleanResourceGroup_loop rt c deadLine (grp # rest) =
          (Some (Mask err),
           [logChecking (Group_Name grp),
            ActivityLogs_ListComplete (activityFilter rt deadLine (Group_Name grp)),
            Groups_Delete (Group_Name grp),
            logDeletionFailed (Group_Name grp) err])"
    by (rule loop_Cons_Return)
next
  assume h: "(prefix ''ci-'' (Group_Name grp) \<or> prefix ''e2e'' (Group_Name grp)) \<and>
    activityLogsClient_ListComplete c (activityFilter rt deadLine (Group_Name grp)) = Inr [] \<and>
    groupsClient_Delete c (Group_Name grp) = Inr respFuture \<and>
    groupsClient_DeleteResponder c respFuture = (res, Some err) \<and>
    (\<forall>resp. Response res = Some resp \<longrightarrow> StatusCode resp \<noteq> 404)"
  then have test: "groupHasTestNamePrefix grp"
    by (simp add: groupHasTestNamePrefix_iff)
  from h have idle:
    "activityLogsClient_ListComplete c (activityFilter rt deadLine (Group_Name grp)) = Inr []"
    by simp
  from h have "cleanResourceGroup_body rt c deadLine grp =
          (Return (Mask err),
           [logChecking (Group_Name grp),
            ActivityLogs_ListComplete (activityFilter rt deadLine (Group_Name grp)),
            Groups_Delete (Group_Name grp),
            logDeletionFailed (Group_Name grp) err])"
    by (cases "Response res")
      (simp_all add: cleanResourceGroup_body_def Let_def StatusNotFound_def
        groupShouldBeDeleted_query_ok [OF test idle])
  then show "cleanResourceGroup_loop rt c deadLine (grp # rest) =
          (Some (Mask err),
           [logChecking (Group_Name grp),
            ActivityLogs_ListComplete (activityFilter rt deadLine (Group_Name grp)),
            Groups_Delete (Group_Name grp),
            logDeletionFailed (Group_Name grp) err])"
    by (rule loop_Cons_Return)
next
  assume h: "fst (dnsRecordShouldBeDeleted rt c dnsRecord deadLine) = Inr True \<and>
    dnsRecordSetsClient_Delete c resourceGroup zoneName (RecordSet_Name dnsRecord) ''NS''
      (Etag dnsRecord) = Some derr"
  then have "fst (cleanDelegateDNSRecords_body rt c deadLine lastError dnsRecord) = Some derr"
    by (simp add: dns_body_lastError deleteRecord_def)
  then show "cleanDelegateDNSRecords_loop rt c deadLine lastError (dnsRecord # recordsIter) =
          (fst (cleanDelegateDNSRecords_loop rt c deadLine (Some derr) recordsIter),
           snd (cleanDelegateDNSRecords_body rt c deadLine lastError dnsRecord)
           @ snd (cleanDelegateDNSRecords_loop rt c deadLine (Some derr) recordsIter))"
    by (simp add: dns_loop_Cons del: cleanDelegateDNSRecords_loop.simps)
next
  assume listing:
    "dnsRecordSetsClient_ListAllByDNSZoneComplete c resourceGroup zoneName = Inr recordsIter"
  show "fst (cleanDelegateDNSRecords rt c) =
          (if failedDeletes rt c (Now rt - gracePeriod) recordsIter = [] then None
           else Some (Mask (last (failedDeletes rt c (Now rt - gracePeriod) recordsIter))))"
    by (simp add: dns_pass_result [OF listing] dns_loop_result)
next
  fix r
  assume listing:
    "dnsRecordSetsClient_ListAllByDNSZoneComplete c resourceGroup zoneName = Inr recordsIter"
    and "r \<in> set recordsIter"
    and "fst (dnsRecordShouldBeDeleted rt c r (Now rt - gracePeriod)) = Inr True"
  then show "RecordSets_Delete resourceGroup zoneName (RecordSet_Name r) ''NS'' (Etag r)
                 \<in> set (snd (cleanDelegateDNSRecords rt c))"
    by (auto simp add: dns_pass_effects [OF listing] dns_loop_delete_mem)
qed


theorem delete_failure_aborts_groups_not_records_witness:
  "cleanResourceGroup_loop exampleRuntime exampleCleaner (Now exampleRuntime - gracePeriod)
     [\<lparr>Group_Name = ''ci-locked''\<rparr>, \<lparr>Group_Name = ''ci-late''\<rparr>] =
     (Some (Mask (New ''conflict'')),
      [logChecking ''ci-locked'',
       ActivityLogs_ListComplete
         (activityFilter exampleRuntime (Now exampleRuntime - gracePeriod) ''ci-locked''),
       Groups_Delete ''ci-locked'',
       logDeletionFailed ''ci-locked'' (New ''conflict'')]) \<and>
   fst (cleanResourceGroup_loop exampleRuntime exampleCleaner (Now exampleRuntime - gracePeriod)
          [\<lparr>Group_Name = ''ci-late''\<rparr>]) = Some (Mask (New ''unexpected status'')) \<and>
   fst (cleanDelegateDNSRecords_loop exampleRuntime exampleCleaner 0 None
          [\<lparr>RecordSet_Name = ''e2eabcd.westeurope'', Etag = ''2''\<rparr>,
           \<lparr>RecordSet_Name = ''www'', Etag = ''4''\<rparr>]) =
     fst (cleanDelegateDNSRecords_loop exampleRuntime exampleCleaner 0
            (Some (New ''precondition failed'')) [\<lparr>RecordSet_Name = ''www'', Etag = ''4''\<rparr>]) \<and>
   fst (cleanDelegateDNSRecords exampleRuntime exampleCleaner)
     = Some (Mask (New ''precondition failed''))"
proof -
  let ?d = "Now exampleRuntime - gracePeriod"
  let ?locked = "\<lparr>Group_Name = ''ci-locked''\<rparr>"
  let ?late = "\<lparr>Group_Name = ''ci-late''\<rparr>"
  let ?sf = "\<lparr>RecordSet_Name = ''e2eabcd.westeurope'', Etag = ''2''\<rparr>"
  let ?www = "\<lparr>RecordSet_Name = ''www'', Etag = ''4''\<rparr>"
  let ?rs = "[\<lparr>RecordSet_Name = ''e2eterraform-a'', Etag = ''1''\<rparr>,
             \<lparr>RecordSet_Name = ''e2eabcd.westeurope'', Etag = ''2''\<rparr>,
             \<lparr>RecordSet_Name = ''e2eterraform-xyz'', Etag = ''3''\<rparr>,
             \<lparr>RecordSet_Name = ''www'', Etag = ''4''\<rparr>,
             \<lparr>RecordSet_Name = ''e2eterraform-gone'', Etag = ''5''\<rparr>]"
  have locked:
    "(prefix ''ci-'' (Group_Name ?locked) \<or> prefix ''e2e'' (Group_Name ?locked)) \<and>
     activityLogsClient_ListComplete exampleCleaner
       (activityFilter exampleRuntime ?d (Group_Name ?locked)) = Inr [] \<and>
     groupsClient_Delete exampleCleaner (Group_Name ?locked) = Inl (New ''conflict'')"
    by code_simp
  have late:
    "(prefix ''ci-'' (Group_Name ?late) \<or> prefix ''e2e'' (Group_Name ?late)) \<and>
     activityLogsClient_ListComplete exampleCleaner
       (activityFilter exampleRuntime ?d (Group_Name ?late)) = Inr [] \<and>
     groupsClient_Delete exampleCleaner (Group_Name ?late) = Inr (Some \<lparr>StatusCode = 409\<rparr>) \<and>
     groupsClient_DeleteResponder exampleCleaner (Some \<lparr>StatusCode = 409\<rparr>)
       = (\<lparr>Response = Some \<lparr>StatusCode = 409\<rparr>\<rparr>, Some (New ''unexpected status'')) \<and>
     (\<forall>resp. Response \<lparr>Response = Some \<lparr>StatusCode = 409\<rparr>\<rparr> = Some resp
        \<longrightarrow> StatusCode resp \<noteq> 404)"
    by (simp add: exampleCleaner_def exampleFilter_def activityFilter_def)
  have stale:
    "fst (dnsRecordShouldBeDeleted exampleRuntime exampleCleaner ?sf 0) = Inr True \<and>
     dnsRecordSetsClient_Delete exampleCleaner resourceGroup zoneName (RecordSet_Name ?sf) ''NS''
       (Etag ?sf) = Some (New ''precondition failed'')"
    by code_simp
  have listing:
    "dnsRecordSetsClient_ListAllByDNSZoneComplete exampleCleaner resourceGroup zoneName = Inr ?rs"
    by (simp add: exampleCleaner_def)
  have failed: "failedDeletes exampleRuntime exampleCleaner ?d ?rs = [New ''precondition failed'']"
    by code_simp
  from delete_failure_aborts_groups_not_records
         [where grp = ?locked and c = exampleCleaner and rt = exampleRuntime and deadLine = ?d
            and err = "New ''conflict''" and rest = "[?late]"] locked
  have one:
    "cleanResourceGroup_loop exampleRuntime exampleCleaner ?d [?locked, ?late] =
       (Some (Mask (New ''conflict'')),
        [logChecking (Group_Name ?locked),
         ActivityLogs_ListComplete (activityFilter exampleRuntime ?d (Group_Name ?locked)),
         Groups_Delete (Group_Name ?locked),
         logDeletionFailed (Group_Name ?locked) (New ''conflict'')])"
    by blast
  from delete_failure_aborts_groups_not_records
         [where grp = ?late and c = exampleCleaner and rt = exampleRuntime and deadLine = ?d
            and err = "New ''unexpected status''" and rest = "[]"
            and respFuture = "Some \<lparr>StatusCode = 409\<rparr>"
            and res = "\<lparr>Response = Some \<lparr>StatusCode = 409\<rparr>\<rparr>"] late
  have two:
    "cleanResourceGroup_loop exampleRuntime exampleCleaner ?d [?late] =
       (Some (Mask (New ''unexpected status'')),
        [logChecking (Group_Name ?late),
         ActivityLogs_ListComplete (activityFilter exampleRuntime ?d (Group_Name ?late)),
         Groups_Delete (Group_Name ?late),
         logDeletionFailed (Group_Name ?late) (New ''unexpected status'')])"
    by blast
  from delete_failure_aborts_groups_not_records
         [where c = exampleCleaner and rt = exampleRuntime and deadLine = 0
            and dnsRecord = ?sf and derr = "New ''precondition failed''" and lastError = None
            and recordsIter = "[?www]"] stale
  have three:
    "cleanDelegateDNSRecords_loop exampleRuntime exampleCleaner 0 None [?sf, ?www] =
       (fst (cleanDelegateDNSRecords_loop exampleRuntime exampleCleaner 0
               (Some (New ''precondition failed'')) [?www]),
        snd (cleanDelegateDNSRecords_body exampleRuntime exampleCleaner 0 None ?sf)
        @ snd (cleanDelegateDNSRecords_loop exampleRuntime exampleCleaner 0
                 (Some (New ''precondition failed'')) [?www]))"
    by blast
  from delete_failure_aborts_groups_not_records
         [where c = exampleCleaner and rt = exampleRuntime and recordsIter = ?rs] listing
  have "fst (cleanDelegateDNSRecords exampleRuntime exampleCleaner) =
          (if failedDeletes exampleRuntime exampleCleaner ?d ?rs = [] then None
           else Some (Mask (last (failedDeletes exampleRuntime exampleCleaner ?d ?rs))))"
    by blast
  with failed have four:
    "fst (cleanDelegateDNSRecords exampleRuntime exampleCleaner)
       = Some (Mask (New ''precondition failed''))"
    by simp
  from one two three four show ?thesis
    by (simp del: cleanResourceGroup_loop.simps cleanDelegateDNSRecords_loop.simps)
qed

section \<open>The name filter of the DNS record reaper\<close>

lemma lang_literal: "lang (literal w) = {w}"
  by (induction w) auto

lemma star_AnyNotNL: "star (lang AnyNotNL) = {w. newline \<notin> set w}"
proof (intro set_eqI iffI)
  fix w
  assume "w \<in> star (lang AnyNotNL)"
  then have "newline \<notin> set w"
    by (induction rule: star.induct) auto
  then show "w \<in> {w. newline \<notin> set w}" by simp
next
  fix w
  assume "w \<in> {w. newline \<notin> set w}"
  then have "newline \<notin> set w" by simp
  then show "w \<in> star (lang AnyNotNL)"
  proof (induction w)
    case Nil
    show ?case by (rule star_empty)
  next
    case (Cons a w)
    then have "[a] \<in> lang AnyNotNL" and "w \<in> star (lang AnyNotNL)" by auto
    then have "[a] @ w \<in> star (lang AnyNotNL)" by (rule star_step)
    then show ?case by simp
  qed
qed

lemma star_not_newline: "star {[c] | c. c \<noteq> newline} = {w. newline \<notin> set w}"
  using star_AnyNotNL by simp

lemma lang_ciRecordRe:
  "s \<in> lang ciRecordRe \<longleftrightarrow>
     (\<exists>mid. newline \<notin> set mid \<and>
        (s = ''e2e'' @ mid @ ''.westeurope'' \<or> s = ''e2e'' @ mid @ ''.germanywestcentral''))"
  by (auto simp add: ciRecordRe_def lang_literal star_not_newline)

text \<open>
  C6. \<open>isCIRecord s\<close> holds if and only if \<open>s\<close> starts with \<^verbatim>\<open>e2eterraform\<close> or the whole
  of \<open>s\<close> matches \<^verbatim>\<open>e2e.*\.(westeurope|germanywestcentral)\<close>; the texts that match are
  \<^verbatim>\<open>e2e\<close>, then any characters other than the newline, then \<^verbatim>\<open>.westeurope\<close> or
  \<^verbatim>\<open>.germanywestcentral\<close>.
\<close>

theorem isCIRecord_iff_pattern:
  "(isCIRecord s \<longleftrightarrow> prefix ''e2eterraform'' s \<or> s \<in> lang ciRecordRe) \<and>
   (s \<in> lang ciRecordRe \<longleftrightarrow>
      (\<exists>mid. newline \<notin> set mid \<and>
         (s = ''e2e'' @ mid @ ''.westeurope'' \<or> s = ''e2e'' @ mid @ ''.germanywestcentral'')))"
proof
  show "isCIRecord s \<longleftrightarrow> prefix ''e2eterraform'' s \<or> s \<in> lang ciRecordRe"
  proof (cases "prefix ''e2eterraform'' s")
    case True
    then show ?thesis
      by (simp add: isCIRecord_def HasPrefix_def e2eterraformPrefix_def)
  next
    case False
    then have "isCIRecord s \<longleftrightarrow> Match ciRecordRe s"
      by (simp add: isCIRecord_def HasPrefix_def e2eterraformPrefix_def)
    also have "\<dots> \<longleftrightarrow> s \<in> lang ciRecordRe"
      by (rule Match_lang)
    finally show ?thesis
      using False by simp
  qed
  show "s \<in> lang ciRecordRe \<longleftrightarrow>
      (\<exists>mid. newline \<notin> set mid \<and>
         (s = ''e2e'' @ mid @ ''.westeurope'' \<or> s = ''e2e'' @ mid @ ''.germanywestcentral''))"
    by (rule lang_ciRecordRe)
qed

theorem isCIRecord_iff_pattern_witness:
  "''e2eabcd.westeurope'' \<in> lang ciRecordRe \<and>
   ''e2eabcd.westeurope.'' \<notin> lang ciRecordRe \<and>
   ''e2e'' @ [newline] @ ''.westeurope'' \<notin> lang ciRecordRe"
proof -
  have a: "isCIRecord ''e2eabcd.westeurope''" by code_simp
  have b: "\<not> isCIRecord ''e2eabcd.westeurope.''" by code_simp
  have c: "\<not> isCIRecord (''e2e'' @ [newline] @ ''.westeurope'')" by code_simp
  from a isCIRecord_iff_pattern [of "''e2eabcd.westeurope''"]
  have "''e2eabcd.westeurope'' \<in> lang ciRecordRe" by simp
  moreover from b isCIRecord_iff_pattern [of "''e2eabcd.westeurope.''"]
  have "''e2eabcd.westeurope.'' \<notin> lang ciRecordRe" by blast
  moreover from c isCIRecord_iff_pattern [of "''e2e'' @ [newline] @ ''.westeurope''"]
  have "''e2e'' @ [newline] @ ''.westeurope'' \<notin> lang ciRecordRe" by blast
  ultimately show ?thesis by simp
qed


end
